theory Spec2Isabelle
  imports Main "HOL-Library.List_Lexorder" "HOL-Library.Char_ord" "HOL-Library.Multiset"
begin

section \<open>Base enumerations (base.py)\<close>

text \<open>
  \<^verbatim>\<open>ClassificationLevel\<close> and \<^verbatim>\<open>Compartment\<close> are string-valued enums. The member's
  \<^verbatim>\<open>.value\<close> is its code; \<^verbatim>\<open>numeric_value\<close> looks the code up in a table that has an
  entry for each of the six codes, so the lookup never fails.
  Strings are ordered as Python orders them: lexicographically by character code, a
  proper prefix before its extensions.
\<close>

datatype ClassificationLevel =
  UNCLASSIFIED | CUI | CONFIDENTIAL | SECRET | TOP_SECRET | TS_SCI

fun level_value :: "ClassificationLevel \<Rightarrow> string" where
  "level_value UNCLASSIFIED = ''U''"
| "level_value CUI = ''CUI''"
| "level_value CONFIDENTIAL = ''C''"
| "level_value SECRET = ''S''"
| "level_value TOP_SECRET = ''TS''"
| "level_value TS_SCI = ''TS//SCI''"

fun numeric_value :: "ClassificationLevel \<Rightarrow> int" where
  "numeric_value UNCLASSIFIED = 0"
| "numeric_value CUI = 1"
| "numeric_value CONFIDENTIAL = 2"
| "numeric_value SECRET = 3"
| "numeric_value TOP_SECRET = 4"
| "numeric_value TS_SCI = 5"

datatype Compartment =
  NOFORN | NOCONTRACT | HUMINT | SIGINT | IMINT | TALENT_KEYHOLE | RUFF

fun compartment_value :: "Compartment \<Rightarrow> string" where
  "compartment_value NOFORN = ''NOFORN''"
| "compartment_value NOCONTRACT = ''NOCONTRACT''"
| "compartment_value HUMINT = ''HUMINT''"
| "compartment_value SIGINT = ''SIGINT''"
| "compartment_value IMINT = ''IMINT''"
| "compartment_value TALENT_KEYHOLE = ''TK''"
| "compartment_value RUFF = ''RUFF''"

section \<open>Dynamic values\<close>

text \<open>
  Payloads and need-to-know attributes are typed \<^verbatim>\<open>Dict[str, Any]\<close>. The values the
  engine can tell apart are modelled by a tree type: \<^verbatim>\<open>None\<close>, booleans, integers, strings,
  lists and string-keyed dictionaries. A dictionary is an association list in insertion
  order; lookup takes the entry of a key and assignment to an existing key keeps its position.
\<close>

datatype pyval =
  PNone
| PBool bool
| PInt int
| PStr string
| PList "pyval list"
| PDict "(string \<times> pyval) list"

datatype py_error = TypeError | ValueError

fun truthy :: "pyval \<Rightarrow> bool" where
  "truthy PNone = False"
| "truthy (PBool b) = b"
| "truthy (PInt i) = (i \<noteq> 0)"
| "truthy (PStr s) = (s \<noteq> [])"
| "truthy (PList xs) = (xs \<noteq> [])"
| "truthy (PDict kvs) = (kvs \<noteq> [])"

text \<open>Iterating a value: a list yields its items, a string its one-character strings, a
  dictionary its keys; anything else raises \<^verbatim>\<open>TypeError\<close>.\<close>

fun py_iter :: "pyval \<Rightarrow> py_error + pyval list" where
  "py_iter (PList xs) = Inr xs"
| "py_iter (PStr s) = Inr (map (\<lambda>c. PStr [c]) s)"
| "py_iter (PDict kvs) = Inr (map (\<lambda>kv. PStr (fst kv)) kvs)"
| "py_iter v = Inl TypeError"

text \<open>\<^verbatim>\<open>r in user_roles\<close> for a list of strings: only a string can equal one of them.\<close>

fun in_str_list :: "pyval \<Rightarrow> string list \<Rightarrow> bool" where
  "in_str_list (PStr s) roles = (s \<in> set roles)"
| "in_str_list v roles = False"

text \<open>\<^verbatim>\<open>sep.join(parts)\<close>.\<close>

fun join :: "string \<Rightarrow> string list \<Rightarrow> string" where
  "join sep [] = []"
| "join sep [x] = x"
| "join sep (x # y # ys) = x @ sep @ join sep (y # ys)"

section \<open>Policy and obligations (policy\_obligations.py)\<close>

datatype ObligationType =
  MASK_FIELD | REDACT_PORTION | REQUIRE_MFA_STEP_UP | REQUIRE_APPROVAL
| AUDIT_ACCESS | RESTRICT_EXPORT | RESTRICT_COPY | WATERMARK

datatype RedactionStrategy =
  MASK_WITH_BRACKETS | MASK_WITH_ASTERISKS | MASK_WITH_HASH | REMOVE_FIELD | TRUNCATE

datatype PolicyScope = GLOBAL | ROLE_BASED | ATTRIBUTE_BASED | RESOURCE_BASED

type_synonym uuid = nat
type_synonym datetime = nat

record FieldRedactionRule =
  field_path :: string
  field_type :: string
  strategy :: RedactionStrategy
  required_clearance :: "ClassificationLevel option"
  required_compartments :: "Compartment list"
  description :: "string option"
  tags :: "(string \<times> string) list"

record PortionRedactionRule =
  portion_name :: string
  portion_marking :: string
  minimum_clearance :: ClassificationLevel
  required_compartments :: "Compartment list"
  strategy :: RedactionStrategy
  description :: "string option"
  tags :: "(string \<times> string) list"

record AccessObligation =
  obligation_id :: uuid
  obligation_type :: ObligationType
  description :: string
  triggered_when :: string
  action :: string
  action_params :: "(string \<times> pyval) list"
  created_at :: datetime
  created_by :: "uuid option"

record AccessDecisionObligation =
  obligation_type :: ObligationType
  resource_field :: "string option"
  redaction_strategy :: "RedactionStrategy option"
  reason :: string

record ClassificationPolicy =
  policy_name :: string
  policy_description :: "string option"
  field_redaction_rules :: "FieldRedactionRule list"
  portion_redaction_rules :: "PortionRedactionRule list"
  access_obligations :: "AccessObligation list"
  scope :: PolicyScope
  applicable_roles :: "string list"
  is_active :: bool
  is_enforced :: bool
  created_by :: "uuid option"
  last_modified_by :: "uuid option"

text \<open>
  \<^verbatim>\<open>AccessDecision\<close>: \<^verbatim>\<open>obligations\<close>, \<^verbatim>\<open>highest_classification\<close> and
  \<^verbatim>\<open>portion_markings\<close> default to the empty list, \<^verbatim>\<open>None\<close> and the empty list;
  \<^verbatim>\<open>decision_id\<close> and \<^verbatim>\<open>decided_at\<close> are drawn by default factories (a fresh UUID, the
  clock) and are inputs of the model.
\<close>

record AccessDecision =
  decision_id :: uuid
  allowed :: bool
  reason :: string
  obligations :: "AccessDecisionObligation list"
  highest_classification :: "ClassificationLevel option"
  portion_markings :: "string list"
  decided_at :: datetime
  decided_by :: string
  user_clearance :: ClassificationLevel
  user_compartments :: "Compartment list"
  resource_classification :: ClassificationLevel
  resource_compartments :: "Compartment list"

section \<open>Access control engine (access\_control\_engine.py)\<close>

record RedactionEngine =
  policy :: ClassificationPolicy

record AccessControlEngine =
  policy :: ClassificationPolicy
  signing_key :: "string option"
  redaction_engine :: RedactionEngine

definition AccessControlEngine_init ::
    "ClassificationPolicy \<Rightarrow> string option \<Rightarrow> AccessControlEngine" where
  "AccessControlEngine_init pol key =
     \<lparr> AccessControlEngine.policy = pol, signing_key = key,
       redaction_engine = \<lparr> RedactionEngine.policy = pol \<rparr> \<rparr>"

text \<open>The keyword arguments of \<^verbatim>\<open>make_access_decision\<close>.\<close>

record access_request =
  user_id :: uuid
  user_clearance :: ClassificationLevel
  user_compartments :: "Compartment list"
  user_roles :: "string list"
  user_mfa_verified :: bool
  user_account_suspended :: bool
  resource_classification :: ClassificationLevel
  resource_compartments :: "Compartment list"
  resource_need_to_know_attrs :: "(string \<times> pyval) list option"
  device_posture :: string
  session_active :: bool

text \<open>A denial: only \<^verbatim>\<open>allowed\<close>, \<^verbatim>\<open>reason\<close> and the four snapshot fields are
  passed to the constructor; the other fields take their defaults.\<close>

definition deny :: "uuid \<Rightarrow> datetime \<Rightarrow> access_request \<Rightarrow> string \<Rightarrow> AccessDecision" where
  "deny did now req why =
     \<lparr> decision_id = did, allowed = False, reason = why,
       obligations = [], highest_classification = None, portion_markings = [],
       decided_at = now, decided_by = ''access-control-engine'',
       AccessDecision.user_clearance = user_clearance req,
       AccessDecision.user_compartments = user_compartments req,
       AccessDecision.resource_classification = resource_classification req,
       AccessDecision.resource_compartments = resource_compartments req \<rparr>"

text \<open>\<^verbatim>\<open>_check_need_to_know\<close>: the generator under \<^verbatim>\<open>any\<close> iterates
  \<^verbatim>\<open>required_roles\<close>, which raises when that value is truthy and not iterable.\<close>

definition check_need_to_know ::
    "string list \<Rightarrow> (string \<times> pyval) list \<Rightarrow> py_error + bool" where
  "check_need_to_know roles resource_attrs =
     (if resource_attrs = [] then Inr True
      else case map_of resource_attrs ''required_roles'' of
             None \<Rightarrow> Inr True
           | Some required_roles \<Rightarrow>
               if truthy required_roles then
                 (case py_iter required_roles of
                    Inl e \<Rightarrow> Inl e
                  | Inr rs \<Rightarrow>
                      if \<not> list_ex (\<lambda>r. in_str_list r roles) rs then Inr False
                      else Inr True)
               else Inr True)"

text \<open>The set difference \<^verbatim>\<open>set(resource_compartments) - set(user_compartments)\<close>, as the
  list of its members without repetition.\<close>

definition missing_compartments :: "Compartment list \<Rightarrow> Compartment list \<Rightarrow> Compartment list" where
  "missing_compartments rcs ucs = filter (\<lambda>c. c \<notin> set ucs) (remdups rcs)"

definition pdp_obligations :: "access_request \<Rightarrow> AccessDecisionObligation list" where
  "pdp_obligations req =
     (if device_posture req = ''untrusted''
         \<and> numeric_value (resource_classification req) \<ge> numeric_value SECRET
      then [\<lparr> obligation_type = REQUIRE_MFA_STEP_UP, resource_field = None,
              redaction_strategy = None,
              reason = ''Device is untrusted; Secret+ data requires additional MFA'' \<rparr>]
      else [])
     @ (if numeric_value (resource_classification req) \<ge> numeric_value SECRET
           \<and> \<not> user_mfa_verified req
        then [\<lparr> obligation_type = REQUIRE_MFA_STEP_UP, resource_field = None,
                redaction_strategy = None,
                reason = ''Secret+ data requires MFA verification'' \<rparr>]
        else [])
     @ (if numeric_value (resource_classification req) \<ge> numeric_value CUI
        then [\<lparr> obligation_type = AUDIT_ACCESS, resource_field = None,
                redaction_strategy = None,
                reason = ''Accessing '' @ level_value (resource_classification req) @ '' data'' \<rparr>]
        else [])"

definition allow :: "uuid \<Rightarrow> datetime \<Rightarrow> access_request \<Rightarrow> AccessDecision" where
  "allow did now req =
     \<lparr> decision_id = did, allowed = True, reason = ''All access control checks passed'',
       obligations = pdp_obligations req,
       highest_classification = Some (resource_classification req),
       portion_markings = map (\<lambda>c. ''//'' @ compartment_value c) (resource_compartments req),
       decided_at = now, decided_by = ''access-control-engine'',
       AccessDecision.user_clearance = user_clearance req,
       AccessDecision.user_compartments = user_compartments req,
       AccessDecision.resource_classification = resource_classification req,
       AccessDecision.resource_compartments = resource_compartments req \<rparr>"

definition make_access_decision ::
    "AccessControlEngine \<Rightarrow> uuid \<Rightarrow> datetime \<Rightarrow> access_request \<Rightarrow> py_error + AccessDecision" where
  "make_access_decision self did now req =
     (if user_account_suspended req then
        Inr (deny did now req ''User account is suspended'')
      else if \<not> session_active req then
        Inr (deny did now req ''Session is not active'')
      else if numeric_value (user_clearance req) < numeric_value (resource_classification req) then
        Inr (deny did now req
               (''Insufficient clearance: user has '' @ level_value (user_clearance req)
                @ '', resource requires '' @ level_value (resource_classification req)))
      else if \<not> set (resource_compartments req) \<subseteq> set (user_compartments req) then
        Inr (deny did now req
               (''Missing compartments: ''
                @ join '', '' (map compartment_value
                    (sort_key compartment_value
                       (missing_compartments (resource_compartments req) (user_compartments req))))))
      else
        (case (case resource_need_to_know_attrs req of
                 None \<Rightarrow> Inr True
               | Some attrs \<Rightarrow>
                   if attrs = [] then Inr True
                   else check_need_to_know (user_roles req) attrs) of
           Inl e \<Rightarrow> Inl e
         | Inr ok \<Rightarrow>
             if \<not> ok then Inr (deny did now req ''Need-to-know denied'')
             else Inr (allow did now req)))"

section \<open>Redaction rules and the redaction engine (policy\_obligations.py)\<close>

definition should_redact ::
    "FieldRedactionRule \<Rightarrow> ClassificationLevel \<Rightarrow> Compartment list \<Rightarrow> bool" where
  "should_redact rule uc ucs =
     (if (case required_clearance rule of
            None \<Rightarrow> False
          | Some rc \<Rightarrow> numeric_value uc < numeric_value rc)
      then True
      else if FieldRedactionRule.required_compartments rule \<noteq> []
              \<and> \<not> set (FieldRedactionRule.required_compartments rule) \<subseteq> set ucs
      then True
      else False)"

definition portion_should_redact ::
    "PortionRedactionRule \<Rightarrow> ClassificationLevel \<Rightarrow> Compartment list \<Rightarrow> bool" where
  "portion_should_redact rule uc ucs =
     (if numeric_value uc < numeric_value (minimum_clearance rule) then True
      else if PortionRedactionRule.required_compartments rule \<noteq> []
              \<and> \<not> set (PortionRedactionRule.required_compartments rule) \<subseteq> set ucs
      then True
      else False)"

text \<open>\<^verbatim>\<open>FieldRedactionRule.apply_redaction(value)\<close>; \<^verbatim>\<open>value[:3]\<close> and \<^verbatim>\<open>value[-3:]\<close> are
  the first and the last three characters of a string longer than six.\<close>

definition apply_redaction :: "FieldRedactionRule \<Rightarrow> pyval \<Rightarrow> string" where
  "apply_redaction rule v =
     (if FieldRedactionRule.strategy rule = MASK_WITH_BRACKETS then ''[REDACTED]''
      else if FieldRedactionRule.strategy rule = MASK_WITH_ASTERISKS then ''****''
      else if FieldRedactionRule.strategy rule = MASK_WITH_HASH then ''#####''
      else if FieldRedactionRule.strategy rule = TRUNCATE then
        (case v of
           PStr s \<Rightarrow>
             if length s > 6 then take 3 s @ ''...'' @ drop (length s - 3) s
             else ''[REDACTED]''
         | _ \<Rightarrow> ''[REDACTED]'')
      else ''[REDACTED]'')"

definition endswith :: "string \<Rightarrow> string \<Rightarrow> bool" where
  "endswith s suf = (length suf \<le> length s \<and> drop (length s - length suf) s = suf)"

text \<open>\<^verbatim>\<open>s.split(sep)\<close> for a one-character separator: never the empty list.\<close>

fun split_on :: "char \<Rightarrow> string \<Rightarrow> string list" where
  "split_on sep [] = [[]]"
| "split_on sep (c # cs) =
     (if c = sep then [] # split_on sep cs
      else case split_on sep cs of
             w # ws \<Rightarrow> (c # w) # ws
           | [] \<Rightarrow> [[c]])"

text \<open>\<^verbatim>\<open>d[k] = v\<close> on a dictionary in insertion order.\<close>

fun dict_set :: "string \<Rightarrow> pyval \<Rightarrow> (string \<times> pyval) list \<Rightarrow> (string \<times> pyval) list" where
  "dict_set k v [] = [(k, v)]"
| "dict_set k v ((k', v') # kvs) =
     (if k' = k then (k, v) # kvs else (k', v') # dict_set k v kvs)"

text \<open>
  \<^verbatim>\<open>_set_path_redacted\<close> mutates the payload in place and returns whether it changed
  anything. The model returns the payload after the call together with that flag. The loop
  over the list items calls the function on every item (\<^verbatim>\<open>changed |= ...\<close> does not
  short-circuit).
\<close>

fun set_path_redacted :: "pyval \<Rightarrow> string list \<Rightarrow> pyval \<Rightarrow> pyval \<times> bool" where
  "set_path_redacted current [] redacted_value = (current, False)"
| "set_path_redacted current (head # tail) redacted_value =
     (if endswith head ''[*]'' then
        (let key = take (length head - 3) head in
         case current of
           PDict kvs \<Rightarrow>
             (case map_of kvs key of
                Some (PList items) \<Rightarrow>
                  (let rs = map (\<lambda>item. set_path_redacted item tail redacted_value) items
                   in (PDict (dict_set key (PList (map fst rs)) kvs), list_ex snd rs))
              | _ \<Rightarrow> (current, False))
         | _ \<Rightarrow> (current, False))
      else
        (case current of
           PDict kvs \<Rightarrow>
             (case map_of kvs head of
                None \<Rightarrow> (current, False)
              | Some child \<Rightarrow>
                  if tail = [] then (PDict (dict_set head redacted_value kvs), True)
                  else (let r = set_path_redacted child tail redacted_value
                        in (PDict (dict_set head (fst r) kvs), snd r)))
         | _ \<Rightarrow> (current, False)))"

text \<open>\<^verbatim>\<open>redact_field\<close>: the replacement is computed by \<^verbatim>\<open>rule.apply_redaction(None)\<close>
  before the path is resolved.\<close>

definition redact_field ::
    "RedactionEngine \<Rightarrow> pyval \<Rightarrow> string \<Rightarrow> ClassificationLevel \<Rightarrow> Compartment list \<Rightarrow> pyval" where
  "redact_field self data fpath uc ucs =
     fold (\<lambda>rule data.
             if field_path rule \<noteq> fpath then data
             else if \<not> should_redact rule uc ucs then data
             else (let parts = split_on (CHR ''.'') fpath;
                       redacted_value = PStr (apply_redaction rule PNone)
                   in fst (set_path_redacted data parts redacted_value)))
          (field_redaction_rules (RedactionEngine.policy self)) data"

definition compute_obligations ::
    "RedactionEngine \<Rightarrow> ClassificationLevel \<Rightarrow> Compartment list \<Rightarrow> AccessDecisionObligation list" where
  "compute_obligations self uc ucs =
     map (\<lambda>rule. \<lparr> obligation_type = MASK_FIELD,
                   resource_field = Some (field_path rule),
                   redaction_strategy = Some (FieldRedactionRule.strategy rule),
                   reason = ''Redaction rule applies'' \<rparr>)
         (filter (\<lambda>rule. should_redact rule uc ucs)
                 (field_redaction_rules (RedactionEngine.policy self)))
     @ map (\<lambda>portion_rule. \<lparr> obligation_type = REDACT_PORTION,
                     resource_field = Some (portion_name portion_rule),
                     redaction_strategy = Some (PortionRedactionRule.strategy portion_rule),
                     reason = ''Portion redaction rule applies'' \<rparr>)
           (filter (\<lambda>portion_rule. portion_should_redact portion_rule uc ucs)
                   (portion_redaction_rules (RedactionEngine.policy self)))"

definition apply_obligations ::
    "RedactionEngine \<Rightarrow> pyval \<Rightarrow> AccessDecisionObligation list
       \<Rightarrow> ClassificationLevel \<Rightarrow> Compartment list \<Rightarrow> pyval" where
  "apply_obligations self data obls uc ucs =
     fold (\<lambda>ob data.
             if AccessDecisionObligation.obligation_type ob = MASK_FIELD
                \<and> (case resource_field ob of None \<Rightarrow> False | Some f \<Rightarrow> f \<noteq> [])
             then redact_field self data (the (resource_field ob)) uc ucs
             else data)
          obls data"

text \<open>\<^verbatim>\<open>AccessControlEngine.apply_redaction\<close>.\<close>

definition engine_apply_redaction ::
    "AccessControlEngine \<Rightarrow> pyval \<Rightarrow> ClassificationLevel \<Rightarrow> Compartment list \<Rightarrow> pyval" where
  "engine_apply_redaction self data uc ucs =
     (let obls = compute_obligations (redaction_engine self) uc ucs
      in apply_obligations (redaction_engine self) data obls uc ucs)"

section \<open>Canonical JSON (the library's json.dumps with sort\_keys and compact separators)\<close>

text \<open>
  \<^verbatim>\<open>json.dumps(payload, sort_keys=True, separators=(",", ":"))\<close> with the default
  \<^verbatim>\<open>ensure_ascii\<close>: keys in ascending order, no whitespace, and inside a string the quote,
  the backslash and every character outside the printable ASCII range escaped (characters
  are code points below 256 here, so the long escape is \<^verbatim>\<open>\u00XX\<close> in lowercase hex).
\<close>

fun hex_digit :: "nat \<Rightarrow> char" where
  "hex_digit n = (if n < 10 then char_of (48 + n) else char_of (87 + n))"

fun decimal :: "nat \<Rightarrow> string" where
  "decimal n =
     (if n < 10 then [char_of (48 + n)]
      else decimal (n div 10) @ [char_of (48 + n mod 10)])"

declare decimal.simps [simp del]

definition str_of_int :: "int \<Rightarrow> string" where
  "str_of_int i = (if i < 0 then CHR ''-'' # decimal (nat (- i)) else decimal (nat i))"

definition json_escape_char :: "char \<Rightarrow> string" where
  "json_escape_char c =
     (if c = CHR 0x22 then [CHR 0x5C, CHR 0x22]
      else if c = CHR 0x5C then [CHR 0x5C, CHR 0x5C]
      else if c = CHR 0x0A then [CHR 0x5C, CHR ''n'']
      else if c = CHR 0x0D then [CHR 0x5C, CHR ''r'']
      else if c = CHR 0x09 then [CHR 0x5C, CHR ''t'']
      else if c = CHR 0x0C then [CHR 0x5C, CHR ''f'']
      else if c = CHR 0x08 then [CHR 0x5C, CHR ''b'']
      else if 32 \<le> (of_char c :: nat) \<and> (of_char c :: nat) \<le> 126 then [c]
      else [CHR 0x5C, CHR ''u'', CHR ''0'', CHR ''0'',
            hex_digit ((of_char c :: nat) div 16), hex_digit ((of_char c :: nat) mod 16)])"

definition json_string :: "string \<Rightarrow> string" where
  "json_string s = [CHR 0x22] @ concat (map json_escape_char s) @ [CHR 0x22]"

fun json_dumps :: "pyval \<Rightarrow> string" where
  "json_dumps PNone = ''null''"
| "json_dumps (PBool b) = (if b then ''true'' else ''false'')"
| "json_dumps (PInt i) = str_of_int i"
| "json_dumps (PStr s) = json_string s"
| "json_dumps (PList xs) = ''['' @ join '','' (map json_dumps xs) @ '']''"
| "json_dumps (PDict kvs) =
     ''{'' @ join '','' (map (\<lambda>kv. json_string (fst kv) @ '':'' @ json_dumps (snd kv))
                           (sort_key fst kvs)) @ ''}''"

section \<open>Classification aggregation (policy\_obligations.py)\<close>

text \<open>
  An entity is a dictionary of which \<^verbatim>\<open>aggregate\<close> reads three keys. A key that is absent
  or holds \<^verbatim>\<open>None\<close> is \<open>None\<close> here. A classification or a compartment is either an enum
  member or a raw code, which the enum constructor converts or rejects with
  \<^verbatim>\<open>ValueError\<close>.
\<close>

datatype 'a enum_input = Member 'a | Raw string

record entity =
  ent_classification :: "ClassificationLevel enum_input option"
  ent_portion_markings :: "string list option"
  ent_compartments :: "Compartment enum_input list option"

definition level_of_code :: "string \<Rightarrow> ClassificationLevel option" where
  "level_of_code s =
     find (\<lambda>l. level_value l = s)
          [UNCLASSIFIED, CUI, CONFIDENTIAL, SECRET, TOP_SECRET, TS_SCI]"

definition compartment_of_code :: "string \<Rightarrow> Compartment option" where
  "compartment_of_code s =
     find (\<lambda>c. compartment_value c = s)
          [NOFORN, NOCONTRACT, HUMINT, SIGINT, IMINT, TALENT_KEYHOLE, RUFF]"

fun to_level :: "ClassificationLevel enum_input \<Rightarrow> py_error + ClassificationLevel" where
  "to_level (Member c) = Inr c"
| "to_level (Raw s) = (case level_of_code s of None \<Rightarrow> Inl ValueError | Some c \<Rightarrow> Inr c)"

fun to_compartment :: "Compartment enum_input \<Rightarrow> py_error + Compartment" where
  "to_compartment (Member c) = Inr c"
| "to_compartment (Raw s) =
     (case compartment_of_code s of None \<Rightarrow> Inl ValueError | Some c \<Rightarrow> Inr c)"

text \<open>The two accumulators are Python sets; a set is kept as a list without repetition
  (\<open>List.insert\<close> adds a new member only). Both are sorted before they are used.\<close>

fun add_compartments ::
    "Compartment enum_input list \<Rightarrow> Compartment list \<Rightarrow> py_error + Compartment list" where
  "add_compartments [] compartments_set = Inr compartments_set"
| "add_compartments (cmp # comps) compartments_set =
     (case to_compartment cmp of
        Inl e \<Rightarrow> Inl e
      | Inr c \<Rightarrow> add_compartments comps (List.insert c compartments_set))"

fun collect ::
    "entity list \<Rightarrow> ClassificationLevel list \<times> string list \<times> Compartment list
       \<Rightarrow> py_error + (ClassificationLevel list \<times> string list \<times> Compartment list)" where
  "collect [] st = Inr st"
| "collect (entity # entities) (classifications, portion_markings_set, compartments_set) =
     (case (case ent_classification entity of
              None \<Rightarrow> Inr classifications
            | Some c \<Rightarrow>
                (case to_level c of
                   Inl e \<Rightarrow> Inl e
                 | Inr l \<Rightarrow> Inr (classifications @ [l]))) of
        Inl e \<Rightarrow> Inl e
      | Inr classifications' \<Rightarrow>
          (let portion_markings_set' =
                 (case ent_portion_markings entity of
                    None \<Rightarrow> portion_markings_set
                  | Some ms \<Rightarrow>
                      if ms \<noteq> [] then fold List.insert ms portion_markings_set
                      else portion_markings_set)
           in case (case ent_compartments entity of
                      None \<Rightarrow> Inr compartments_set
                    | Some comps \<Rightarrow>
                        if comps \<noteq> [] then add_compartments comps compartments_set
                        else Inr compartments_set) of
                Inl e \<Rightarrow> Inl e
              | Inr compartments_set' \<Rightarrow>
                  collect entities (classifications', portion_markings_set', compartments_set')))"

text \<open>\<^verbatim>\<open>max(xs, key=f, default=d)\<close>: the first item whose key is maximal.\<close>

fun max_by_key :: "('a \<Rightarrow> int) \<Rightarrow> 'a \<Rightarrow> 'a list \<Rightarrow> 'a" where
  "max_by_key f d [] = d"
| "max_by_key f d (x # xs) = fold (\<lambda>y best. if f y > f best then y else best) xs x"

record ClassificationAggregationResult =
  highest_classification :: ClassificationLevel
  all_classifications :: "ClassificationLevel list"
  all_portion_markings :: "string list"
  all_compartments :: "Compartment list"
  computed_at :: datetime
  computed_from_entity_count :: int
  signature :: "string option"
  signature_algorithm :: string

definition signing_payload :: "ClassificationAggregationResult \<Rightarrow> pyval" where
  "signing_payload self =
     PDict [(''highest_classification'',
               PStr (level_value (ClassificationAggregationResult.highest_classification self))),
            (''all_portion_markings'', PList (map PStr (sort (all_portion_markings self)))),
            (''all_compartments'',
               PList (map PStr (sort (map compartment_value (all_compartments self))))),
            (''count'', PInt (computed_from_entity_count self))]"

text \<open>
  \<^verbatim>\<open>compute_signature\<close>. The library's
  \<^verbatim>\<open>hmac.new(key.encode(), msg.encode(), hashlib.sha256).hexdigest()\<close> is the parameter
  \<open>hmac_sha256_hex\<close>, from the key and the message to the hex digest.
\<close>

definition compute_signature ::
    "(string \<Rightarrow> string \<Rightarrow> string) \<Rightarrow> ClassificationAggregationResult \<Rightarrow> string \<Rightarrow> string" where
  "compute_signature hmac_sha256_hex self key =
     (let serialized = json_dumps (signing_payload self)
      in hmac_sha256_hex key serialized)"

definition aggregate ::
    "(string \<Rightarrow> string \<Rightarrow> string) \<Rightarrow> datetime \<Rightarrow> entity list \<Rightarrow> string option
       \<Rightarrow> py_error + ClassificationAggregationResult" where
  "aggregate hmac_sha256_hex now entities key =
     (case collect entities ([], [], []) of
        Inl e \<Rightarrow> Inl e
      | Inr (classifications, portion_markings_set, compartments_set) \<Rightarrow>
          (let highest = max_by_key numeric_value UNCLASSIFIED classifications;
               result =
                 \<lparr> ClassificationAggregationResult.highest_classification = highest,
                   all_classifications = classifications,
                   all_portion_markings = sort portion_markings_set,
                   all_compartments = sort_key compartment_value compartments_set,
                   computed_at = now,
                   computed_from_entity_count = int (length entities),
                   signature = None,
                   signature_algorithm = ''hmac-sha256'' \<rparr>
           in Inr (case key of
                     None \<Rightarrow> result
                   | Some k \<Rightarrow>
                       if k \<noteq> [] then
                         result\<lparr> signature := Some (compute_signature hmac_sha256_hex result k) \<rparr>
                       else result)))"


section \<open>Scenarios of the test suite\<close>

text \<open>The inputs of the integration tests, used to run the definitions: the request of
  \<^verbatim>\<open>test_allow_matching_clearance_and_compartments\<close>, the policy of the fixture
  \<^verbatim>\<open>policy_with_redaction\<close> and the payload of \<^verbatim>\<open>test_field_redaction_list_wildcard\<close>.
  A policy built from its name alone has the defaults of the model class.\<close>

definition baseline_request :: access_request where
  "baseline_request =
     \<lparr> user_id = 1, user_clearance = SECRET, user_compartments = [NOFORN, HUMINT],
       user_roles = [''analyst''], user_mfa_verified = True, user_account_suspended = False,
       resource_classification = SECRET, resource_compartments = [NOFORN, HUMINT],
       resource_need_to_know_attrs = None,
       device_posture = ''trusted'', session_active = True \<rparr>"

definition ClassificationPolicy_init :: "string \<Rightarrow> ClassificationPolicy" where
  "ClassificationPolicy_init name =
     \<lparr> policy_name = name, policy_description = None,
       field_redaction_rules = [], portion_redaction_rules = [], access_obligations = [],
       scope = GLOBAL, applicable_roles = [], is_active = True, is_enforced = True,
       ClassificationPolicy.created_by = None, last_modified_by = None \<rparr>"

definition test_engine :: AccessControlEngine where
  "test_engine = AccessControlEngine_init (ClassificationPolicy_init ''Test Policy'') None"

definition email_rule :: FieldRedactionRule where
  "email_rule =
     \<lparr> field_path = ''user.email'', field_type = ''email'',
       FieldRedactionRule.strategy = MASK_WITH_BRACKETS,
       required_clearance = Some SECRET, FieldRedactionRule.required_compartments = [],
       FieldRedactionRule.description = None, FieldRedactionRule.tags = [] \<rparr>"

definition wildcard_rule :: FieldRedactionRule where
  "wildcard_rule =
     \<lparr> field_path = ''incident.affected_users[*].email'', field_type = ''email'',
       FieldRedactionRule.strategy = MASK_WITH_BRACKETS,
       required_clearance = Some SECRET, FieldRedactionRule.required_compartments = [HUMINT],
       FieldRedactionRule.description = None, FieldRedactionRule.tags = [] \<rparr>"

definition classified_section_rule :: PortionRedactionRule where
  "classified_section_rule =
     \<lparr> portion_name = ''classified_section'', portion_marking = ''//TS//SCI'',
       minimum_clearance = TS_SCI, PortionRedactionRule.required_compartments = [],
       PortionRedactionRule.strategy = REMOVE_FIELD,
       PortionRedactionRule.description = None, PortionRedactionRule.tags = [] \<rparr>"

definition policy_with_redaction :: ClassificationPolicy where
  "policy_with_redaction =
     (ClassificationPolicy_init ''Redaction Policy'')
       \<lparr> field_redaction_rules := [email_rule, wildcard_rule],
         portion_redaction_rules := [classified_section_rule] \<rparr>"

definition affected_users_payload :: pyval where
  "affected_users_payload =
     PDict [(''incident'',
       PDict [(''affected_users'',
         PList [PDict [(''name'', PStr ''Alice''), (''email'', PStr ''alice@agency.gov'')],
                PDict [(''name'', PStr ''Bob''), (''email'', PStr ''bob@agency.gov'')]])])]"

section \<open>What an entity contributes\<close>

text \<open>
  Auxiliary views for stating what the loop of \<^verbatim>\<open>aggregate\<close> has accumulated: the
  classification an entity contributes, its portion markings, its compartments, and whether
  all its raw codes convert. They are not part of the program.
\<close>

definition entity_levels :: "entity \<Rightarrow> ClassificationLevel list" where
  "entity_levels e =
     (case ent_classification e of
        None \<Rightarrow> []
      | Some c \<Rightarrow> (case to_level c of Inl err \<Rightarrow> [] | Inr l \<Rightarrow> [l]))"

definition entity_markings :: "entity \<Rightarrow> string list" where
  "entity_markings e = (case ent_portion_markings e of None \<Rightarrow> [] | Some ms \<Rightarrow> ms)"

definition entity_compartments :: "entity \<Rightarrow> Compartment list" where
  "entity_compartments e =
     (case ent_compartments e of
        None \<Rightarrow> []
      | Some cs \<Rightarrow> concat (map (\<lambda>x. case to_compartment x of Inl err \<Rightarrow> [] | Inr c \<Rightarrow> [c]) cs))"

definition entity_valid :: "entity \<Rightarrow> bool" where
  "entity_valid e =
     ((case ent_classification e of None \<Rightarrow> True | Some c \<Rightarrow> to_level c \<noteq> Inl ValueError)
      \<and> (case ent_compartments e of
            None \<Rightarrow> True
          | Some cs \<Rightarrow> list_all (\<lambda>x. to_compartment x \<noteq> Inl ValueError) cs))"

text \<open>The entities of \<^verbatim>\<open>test_aggregate_multiple_classifications\<close>, with compartments
  added and one classification and one compartment given by code.\<close>

definition banner_entities :: "entity list" where
  "banner_entities =
     [\<lparr> ent_classification = Some (Member SECRET), ent_portion_markings = Some [''//NOFORN''],
        ent_compartments = Some [Member NOFORN] \<rparr>,
      \<lparr> ent_classification = Some (Raw ''TS''), ent_portion_markings = Some [''//HUMINT''],
        ent_compartments = Some [Raw ''HUMINT'', Member NOFORN] \<rparr>,
      \<lparr> ent_classification = Some (Member SECRET), ent_portion_markings = Some [''//NOCONTRACT''],
        ent_compartments = None \<rparr>]"

section \<open>The value at a plain path\<close>

text \<open>
  Auxiliary functions for stating where a resolution acts; they are not part of the
  program. \<open>get_path\<close> reads the value reached from a payload through a sequence of plain
  keys, if every key is present in a dictionary on the way. \<open>put_path\<close> replaces the value
  at such a place and leaves everything else as it is (and the payload itself when the place
  does not exist).
\<close>

fun get_path :: "pyval \<Rightarrow> string list \<Rightarrow> pyval option" where
  "get_path cur [] = Some cur"
| "get_path cur (k # ks) =
     (case cur of
        PDict kvs \<Rightarrow> (case map_of kvs k of None \<Rightarrow> None | Some child \<Rightarrow> get_path child ks)
      | _ \<Rightarrow> None)"

fun put_path :: "pyval \<Rightarrow> string list \<Rightarrow> pyval \<Rightarrow> pyval" where
  "put_path cur [] new = new"
| "put_path cur (k # ks) new =
     (case cur of
        PDict kvs \<Rightarrow>
          (case map_of kvs k of
             None \<Rightarrow> cur
           | Some child \<Rightarrow> PDict (dict_set k (put_path child ks new) kvs))
      | _ \<Rightarrow> cur)"

section \<open>Facts about the enumerations\<close>

lemma compartment_value_inj: "inj compartment_value"
proof (rule injI)
  fix x y assume "compartment_value x = compartment_value y"
  then show "x = y" by (cases x; cases y) simp_all
qed

lemma level_value_inj: "inj level_value"
proof (rule injI)
  fix x y assume "level_value x = level_value y"
  then show "x = y" by (cases x; cases y) simp_all
qed

lemma numeric_value_inj: "inj numeric_value"
proof (rule injI)
  fix x y assume "numeric_value x = numeric_value y"
  then show "x = y" by (cases x; cases y) simp_all
qed

lemma set_missing_compartments:
  "set (missing_compartments rcs ucs) = set rcs - set ucs"
  by (auto simp: missing_compartments_def)

lemma distinct_missing_compartments: "distinct (missing_compartments rcs ucs)"
  by (simp add: missing_compartments_def)

section \<open>The decision pipeline\<close>

text \<open>
  The only way for \<^verbatim>\<open>make_access_decision\<close> to raise is a truthy \<^verbatim>\<open>required_roles\<close>
  that cannot be iterated; on every other input it returns a decision, and a decision is
  either one of the denials or the allow record.
\<close>

lemma make_access_decision_returns:
  assumes "\<And>attrs v. resource_need_to_know_attrs req = Some attrs
             \<Longrightarrow> map_of attrs ''required_roles'' = Some v \<Longrightarrow> truthy v
             \<Longrightarrow> \<exists>rs. py_iter v = Inr rs"
  shows "\<exists>d. make_access_decision self did now req = Inr d"
proof (cases "resource_need_to_know_attrs req")
  case None
  then show ?thesis by (simp add: make_access_decision_def)
next
  case (Some attrs)
  show ?thesis
  proof (cases "map_of attrs ''required_roles''")
    case None
    with Some show ?thesis by (simp add: make_access_decision_def check_need_to_know_def)
  next
    case (Some v)
    show ?thesis
    proof (cases "truthy v")
      case True
      with assms[OF \<open>resource_need_to_know_attrs req = Some attrs\<close> Some]
      obtain rs where "py_iter v = Inr rs" by blast
      with Some \<open>resource_need_to_know_attrs req = Some attrs\<close> True show ?thesis
        by (simp add: make_access_decision_def check_need_to_know_def)
    next
      case False
      with Some \<open>resource_need_to_know_attrs req = Some attrs\<close> show ?thesis
        by (simp add: make_access_decision_def check_need_to_know_def)
    qed
  qed
qed

lemma make_access_decision_cases:
  assumes "make_access_decision self did now req = Inr d"
  shows "(\<exists>why. d = deny did now req why) \<or> d = allow did now req"
  using assms
  by (auto simp: make_access_decision_def split: if_splits sum.splits option.splits)

text \<open>
  C1. A suspended account is denied with the reason "User account is suspended", whatever
  the session state, clearance, compartments, need-to-know attributes and every other
  input are: the account check comes first and returns at once.
\<close>

theorem suspended_account_denied:
  "user_account_suspended req \<Longrightarrow>
     (\<exists>d. make_access_decision self did now req = Inr d
          \<and> allowed d = False \<and> reason d = ''User account is suspended'')"
  by (simp add: make_access_decision_def deny_def)

theorem suspended_account_denied_witness:
  "\<exists>d. make_access_decision test_engine 7 42
         (baseline_request\<lparr> user_account_suspended := True, session_active := False,
            user_clearance := UNCLASSIFIED, user_compartments := [],
            resource_need_to_know_attrs := Some [(''required_roles'', PInt 5)] \<rparr>) = Inr d
       \<and> allowed d = False \<and> reason d = ''User account is suspended''"
  using suspended_account_denied
    [of "baseline_request\<lparr> user_account_suspended := True, session_active := False,
            user_clearance := UNCLASSIFIED, user_compartments := [],
            resource_need_to_know_attrs := Some [(''required_roles'', PInt 5)] \<rparr>"
        test_engine 7 42]
  by (simp add: baseline_request_def)

text \<open>
  C2. With the account not suspended and the session active, a subject whose clearance rank
  is strictly below the resource's is denied, and the reason is
  "Insufficient clearance: user has U, resource requires R" for the two codes U and R.
\<close>

theorem insufficient_clearance_denied:
  assumes "\<not> user_account_suspended req" and "session_active req"
    and "numeric_value (user_clearance req) < numeric_value (resource_classification req)"
  shows "\<exists>d. make_access_decision self did now req = Inr d
           \<and> allowed d = False
           \<and> reason d = ''Insufficient clearance: user has '' @ level_value (user_clearance req)
                 @ '', resource requires '' @ level_value (resource_classification req)"
  using assms by (simp add: make_access_decision_def deny_def)

theorem insufficient_clearance_denied_witness:
  "\<exists>d. make_access_decision test_engine 7 42
         (baseline_request\<lparr> resource_classification := TOP_SECRET \<rparr>) = Inr d
       \<and> allowed d = False
       \<and> reason d = ''Insufficient clearance: user has S, resource requires TS''"
  using insufficient_clearance_denied
    [of "baseline_request\<lparr> resource_classification := TOP_SECRET \<rparr>"
        test_engine 7 42]
  by (simp add: baseline_request_def)

text \<open>
  C3. Past the account, session and clearance checks, a resource compartment set that is
  not contained in the subject's is denied with the reason "Missing compartments: "
  followed by the codes of exactly the compartments of the resource that the subject
  lacks, in ascending order without repetition, joined by a comma and a space.
\<close>

theorem missing_compartments_denied:
  assumes "\<not> user_account_suspended req" and "session_active req"
    and "\<not> numeric_value (user_clearance req) < numeric_value (resource_classification req)"
    and "\<not> set (resource_compartments req) \<subseteq> set (user_compartments req)"
  shows "\<exists>d codes. make_access_decision self did now req = Inr d
           \<and> allowed d = False
           \<and> reason d = ''Missing compartments: '' @ join '', '' codes
           \<and> set codes = compartment_value `
                 (set (resource_compartments req) - set (user_compartments req))
           \<and> sorted codes \<and> distinct codes"
proof -
  let ?ms = "missing_compartments (resource_compartments req) (user_compartments req)"
  let ?codes = "map compartment_value (sort_key compartment_value ?ms)"
  have d: "make_access_decision self did now req
             = Inr (deny did now req (''Missing compartments: '' @ join '', '' ?codes))"
    using assms by (simp add: make_access_decision_def)
  have s: "set ?codes = compartment_value `
             (set (resource_compartments req) - set (user_compartments req))"
    by (simp add: set_missing_compartments)
  have so: "sorted ?codes" by simp
  have "inj_on compartment_value (set (sort_key compartment_value ?ms))"
    using compartment_value_inj by (rule inj_on_subset) simp
  then have di: "distinct ?codes"
    by (simp add: distinct_map distinct_missing_compartments)
  from d s so di show ?thesis
    by (intro exI[of _ "deny did now req (''Missing compartments: '' @ join '', '' ?codes)"]
              exI[of _ ?codes]) (simp add: deny_def)
qed

theorem missing_compartments_denied_witness:
  "(\<exists>d codes. make_access_decision test_engine 7 42
         (baseline_request\<lparr> user_compartments := [NOFORN],
            resource_compartments := [SIGINT, NOFORN, HUMINT, SIGINT] \<rparr>) = Inr d
       \<and> allowed d = False
       \<and> reason d = ''Missing compartments: '' @ join '', '' codes
       \<and> set codes = {''HUMINT'', ''SIGINT''} \<and> sorted codes \<and> distinct codes)
   \<and> map_sum id reason (make_access_decision test_engine 7 42
         (baseline_request\<lparr> user_compartments := [NOFORN],
            resource_compartments := [SIGINT, NOFORN, HUMINT, SIGINT] \<rparr>))
       = Inr ''Missing compartments: HUMINT, SIGINT''"
proof
  show "\<exists>d codes. make_access_decision test_engine 7 42
         (baseline_request\<lparr> user_compartments := [NOFORN],
            resource_compartments := [SIGINT, NOFORN, HUMINT, SIGINT] \<rparr>) = Inr d
       \<and> allowed d = False
       \<and> reason d = ''Missing compartments: '' @ join '', '' codes
       \<and> set codes = {''HUMINT'', ''SIGINT''} \<and> sorted codes \<and> distinct codes"
    using missing_compartments_denied
      [of "baseline_request\<lparr> user_compartments := [NOFORN],
            resource_compartments := [SIGINT, NOFORN, HUMINT, SIGINT] \<rparr>"
        test_engine 7 42]
    by (simp add: baseline_request_def insert_Diff_if insert_commute)
  show "map_sum id reason (make_access_decision test_engine 7 42
         (baseline_request\<lparr> user_compartments := [NOFORN],
            resource_compartments := [SIGINT, NOFORN, HUMINT, SIGINT] \<rparr>))
       = Inr ''Missing compartments: HUMINT, SIGINT''"
    by (simp add: make_access_decision_def missing_compartments_def baseline_request_def deny_def)
qed

text \<open>
  C7. The obligations of an allowed decision are, in this order and nothing else: the
  step-up for an untrusted device when the resource is SECRET or above, the step-up for a
  subject without verified MFA when the resource is SECRET or above, and the audit
  obligation "Accessing R data" when the resource is CUI or above.
\<close>

theorem allowed_obligations_in_order:
  assumes "make_access_decision self did now req = Inr d" and "allowed d"
  shows "obligations d =
     (if device_posture req = ''untrusted''
         \<and> numeric_value (resource_classification req) \<ge> numeric_value SECRET
      then [\<lparr> obligation_type = REQUIRE_MFA_STEP_UP, resource_field = None,
              redaction_strategy = None,
              reason = ''Device is untrusted; Secret+ data requires additional MFA'' \<rparr>]
      else [])
     @ (if numeric_value (resource_classification req) \<ge> numeric_value SECRET
           \<and> \<not> user_mfa_verified req
        then [\<lparr> obligation_type = REQUIRE_MFA_STEP_UP, resource_field = None,
                redaction_strategy = None,
                reason = ''Secret+ data requires MFA verification'' \<rparr>]
        else [])
     @ (if numeric_value (resource_classification req) \<ge> numeric_value CUI
        then [\<lparr> obligation_type = AUDIT_ACCESS, resource_field = None,
                redaction_strategy = None,
                reason = ''Accessing '' @ level_value (resource_classification req) @ '' data'' \<rparr>]
        else [])"
proof -
  from make_access_decision_cases[OF assms(1)] assms(2)
  have "d = allow did now req" by (auto simp: deny_def)
  then show ?thesis by (simp add: allow_def pdp_obligations_def)
qed

theorem allowed_obligations_in_order_witness:
  "make_access_decision test_engine 7 42
      (baseline_request\<lparr> device_posture := ''untrusted'', user_mfa_verified := False \<rparr>)
     = Inr (allow 7 42
         (baseline_request\<lparr> device_posture := ''untrusted'', user_mfa_verified := False \<rparr>))
   \<and> allowed (allow 7 42
         (baseline_request\<lparr> device_posture := ''untrusted'', user_mfa_verified := False \<rparr>))
   \<and> obligations (allow 7 42
         (baseline_request\<lparr> device_posture := ''untrusted'', user_mfa_verified := False \<rparr>))
       = [\<lparr> obligation_type = REQUIRE_MFA_STEP_UP, resource_field = None,
              redaction_strategy = None,
              reason = ''Device is untrusted; Secret+ data requires additional MFA'' \<rparr>,
          \<lparr> obligation_type = REQUIRE_MFA_STEP_UP, resource_field = None,
              redaction_strategy = None,
              reason = ''Secret+ data requires MFA verification'' \<rparr>,
          \<lparr> obligation_type = AUDIT_ACCESS, resource_field = None,
              redaction_strategy = None, reason = ''Accessing S data'' \<rparr>]"
proof -
  let ?req = "baseline_request\<lparr> device_posture := ''untrusted'', user_mfa_verified := False \<rparr>"
  have r: "make_access_decision test_engine 7 42 ?req
             = Inr (allow 7 42 ?req)"
    by (simp add: make_access_decision_def baseline_request_def)
  have a: "allowed (allow 7 42 ?req)" by (simp add: allow_def)
  from allowed_obligations_in_order[OF r a] r a show ?thesis
    by (simp add: baseline_request_def)
qed

text \<open>
  C10. A denied decision has no obligations, no highest classification and no portion
  markings; a decision that carries any of them is an allowed one, and an allowed decision
  carries the resource's classification and the markings of its compartments.
\<close>

theorem denied_decision_carries_defaults:
  assumes "make_access_decision self did now req = Inr d"
  shows "(\<not> allowed d \<longrightarrow>
            obligations d = [] \<and> AccessDecision.highest_classification d = None
            \<and> AccessDecision.portion_markings d = [])
       \<and> (obligations d \<noteq> [] \<or> AccessDecision.highest_classification d \<noteq> None
            \<or> AccessDecision.portion_markings d \<noteq> [] \<longrightarrow> allowed d)
       \<and> (allowed d \<longrightarrow>
            AccessDecision.highest_classification d = Some (resource_classification req)
            \<and> AccessDecision.portion_markings d
                = map (\<lambda>c. ''//'' @ compartment_value c) (resource_compartments req))"
  using make_access_decision_cases[OF assms]
  by (auto simp: deny_def allow_def)

theorem denied_decision_carries_defaults_witness:
  "make_access_decision test_engine 7 42
      (baseline_request\<lparr> session_active := False \<rparr>)
     = Inr (deny 7 42 (baseline_request\<lparr> session_active := False \<rparr>) ''Session is not active'')
   \<and> \<not> allowed (deny 7 42 (baseline_request\<lparr> session_active := False \<rparr>) ''Session is not active'')
   \<and> obligations (deny 7 42 (baseline_request\<lparr> session_active := False \<rparr>)
        ''Session is not active'') = []
   \<and> AccessDecision.highest_classification
        (deny 7 42 (baseline_request\<lparr> session_active := False \<rparr>) ''Session is not active'') = None
   \<and> AccessDecision.portion_markings
        (deny 7 42 (baseline_request\<lparr> session_active := False \<rparr>) ''Session is not active'') = []"
proof -
  let ?req = "baseline_request\<lparr> session_active := False \<rparr>"
  have r: "make_access_decision test_engine 7 42 ?req
             = Inr (deny 7 42 ?req ''Session is not active'')"
    by (simp add: make_access_decision_def baseline_request_def)
  have a: "\<not> allowed (deny 7 42 ?req ''Session is not active'')" by (simp add: deny_def)
  from denied_decision_carries_defaults[OF r] r a show ?thesis
    by blast
qed

section \<open>Redaction rules\<close>

text \<open>
  C5. A field rule fires exactly when its clearance requirement is set and the subject's
  rank is strictly below it, or its compartment requirement is non-empty and not contained
  in the subject's compartments. So a rule with both requirements fires as soon as one of
  them is unmet, and a rule with neither never fires.
\<close>

theorem should_redact_iff:
  "(should_redact rule uc ucs \<longleftrightarrow>
      (\<exists>rc. required_clearance rule = Some rc \<and> numeric_value uc < numeric_value rc)
      \<or> (FieldRedactionRule.required_compartments rule \<noteq> []
          \<and> \<not> set (FieldRedactionRule.required_compartments rule) \<subseteq> set ucs))
   \<and> (\<forall>rc. required_clearance rule = Some rc
           \<and> FieldRedactionRule.required_compartments rule \<noteq> [] \<longrightarrow>
         (should_redact rule uc ucs \<longleftrightarrow>
            numeric_value uc < numeric_value rc
            \<or> \<not> set (FieldRedactionRule.required_compartments rule) \<subseteq> set ucs))
   \<and> (required_clearance rule = None \<and> FieldRedactionRule.required_compartments rule = []
        \<longrightarrow> \<not> should_redact rule uc ucs)"
  by (auto simp: should_redact_def split: option.splits)

theorem should_redact_iff_witness:
  "should_redact wildcard_rule SECRET [NOFORN]
   \<and> should_redact wildcard_rule CUI [NOFORN, HUMINT]
   \<and> \<not> should_redact wildcard_rule SECRET [NOFORN, HUMINT]
   \<and> \<not> should_redact
         (wildcard_rule\<lparr> required_clearance := None,
                          FieldRedactionRule.required_compartments := [] \<rparr>) UNCLASSIFIED []"
  using should_redact_iff[of wildcard_rule SECRET "[NOFORN]"]
        should_redact_iff[of wildcard_rule CUI "[NOFORN, HUMINT]"]
        should_redact_iff[of wildcard_rule SECRET "[NOFORN, HUMINT]"]
        should_redact_iff[of "wildcard_rule\<lparr> required_clearance := None,
                          FieldRedactionRule.required_compartments := [] \<rparr>" UNCLASSIFIED "[]"]
  by (simp add: wildcard_rule_def)




section \<open>Path resolution\<close>

lemma dict_set_same:
  "map_of kvs k = Some v \<Longrightarrow> dict_set k v kvs = kvs"
  by (induction kvs) (auto split: if_splits)

lemma map_of_dict_set:
  "map_of (dict_set k v kvs) = (map_of kvs)(k \<mapsto> v)"
  by (induction kvs) (auto simp: fun_eq_iff)

lemma map_fst_dict_set:
  "map_of kvs k \<noteq> None \<Longrightarrow> map fst (dict_set k v kvs) = map fst kvs"
  by (induction kvs) (auto split: if_splits)

text \<open>A call that reports no change returns the payload as it was.\<close>

lemma set_path_redacted_unchanged:
  "\<not> snd (set_path_redacted current parts v) \<Longrightarrow> fst (set_path_redacted current parts v) = current"
proof (induction current parts v rule: set_path_redacted.induct)
  case (1 current redacted_value)
  then show ?case by simp
next
  case (2 current head tail redacted_value)
  show ?case
  proof (cases "endswith head ''[*]''")
    case True
    note w = True
    show ?thesis
    proof (cases current)
      case (PDict kvs)
      show ?thesis
      proof (cases "map_of kvs (take (length head - 3) head)")
        case None
        with PDict w show ?thesis by simp
      next
        case (Some child)
        show ?thesis
        proof (cases child)
          case (PList items)
          have nochange: "\<forall>item\<in>set items. \<not> snd (set_path_redacted item tail redacted_value)"
            using "2.prems" w PDict Some PList by (simp add: list_ex_iff)
          have "\<forall>item\<in>set items. fst (set_path_redacted item tail redacted_value) = item"
            using "2.IH"(1)[OF w refl PDict Some PList] nochange by blast
          then have "map (\<lambda>item. fst (set_path_redacted item tail redacted_value)) items = items"
            by (simp add: map_idI)
          with w PDict Some PList show ?thesis
            by (simp add: dict_set_same comp_def)
        qed (use w PDict Some in simp_all)
      qed
    qed (use w in simp_all)
  next
    case False
    note nw = False
    show ?thesis
    proof (cases current)
      case (PDict kvs)
      show ?thesis
      proof (cases "map_of kvs head")
        case None
        with PDict nw show ?thesis by simp
      next
        case (Some child)
        show ?thesis
        proof (cases "tail = []")
          case True
          with "2.prems" nw PDict Some show ?thesis by simp
        next
          case False
          have "\<not> snd (set_path_redacted child tail redacted_value)"
            using "2.prems" nw PDict Some False by (simp add: Let_def)
          then have "fst (set_path_redacted child tail redacted_value) = child"
            using "2.IH"(2)[OF nw PDict Some False] by simp
          with nw PDict Some False show ?thesis
            by (simp add: Let_def dict_set_same)
        qed
      qed
    qed (use nw in simp_all)
  qed
qed

text \<open>Replacing at a place: the old value put back changes nothing, the new value is
  read back, and the other keys and their order are untouched.\<close>

lemma put_path_same: "get_path cur pre = Some old \<Longrightarrow> put_path cur pre old = cur"
proof (induction pre arbitrary: cur)
  case Nil
  then show ?case by simp
next
  case (Cons k ks)
  then show ?case
    by (cases cur) (auto simp: dict_set_same split: option.splits)
qed

lemma get_path_put_path:
  "get_path cur pre = Some old \<Longrightarrow> get_path (put_path cur pre new) pre = Some new"
proof (induction pre arbitrary: cur)
  case Nil
  then show ?case by simp
next
  case (Cons k ks)
  then show ?case
    by (cases cur) (auto simp: map_of_dict_set split: option.splits)
qed

lemma put_path_sibling:
  "k' \<noteq> k \<Longrightarrow> get_path (put_path cur (k # ks) new) (k' # q) = get_path cur (k' # q)"
  by (cases cur) (auto simp: map_of_dict_set split: option.splits)

lemma put_path_keys:
  "put_path (PDict kvs) (k # ks) new = PDict kvs' \<Longrightarrow> map fst kvs' = map fst kvs"
  by (auto simp: map_fst_dict_set split: option.splits)

text \<open>Plain segments in front of the rest of a path: the resolution descends through them
  and acts on the value they lead to, or does nothing when one of them is missing.\<close>

lemma plain_prefix_descends:
  assumes "\<forall>seg\<in>set pre. \<not> endswith seg ''[*]''" and "rest \<noteq> []"
  shows "set_path_redacted current (pre @ rest) v =
           (case get_path current pre of
              None \<Rightarrow> (current, False)
            | Some sub \<Rightarrow> (put_path current pre (fst (set_path_redacted sub rest v)),
                           snd (set_path_redacted sub rest v)))"
  using assms
proof (induction pre arbitrary: current)
  case Nil
  then show ?case by simp
next
  case (Cons k ks)
  then have pk: "\<not> endswith k ''[*]''" and pks: "\<forall>seg\<in>set ks. \<not> endswith seg ''[*]''"
    by simp_all
  have ne: "ks @ rest \<noteq> []" using Cons.prems(2) by simp
  show ?case
  proof (cases current)
    case (PDict kvs)
    show ?thesis
    proof (cases "map_of kvs k")
      case None
      with PDict pk show ?thesis by simp
    next
      case (Some child)
      note ih = Cons.IH[OF pks Cons.prems(2), of child]
      show ?thesis
      proof (cases "get_path child ks")
        case None
        with ih have "set_path_redacted child (ks @ rest) v = (child, False)" by simp
        with PDict Some pk ne None show ?thesis
          by (simp add: Let_def dict_set_same)
      next
        case (Some sub)
        with ih have "set_path_redacted child (ks @ rest) v =
            (put_path child ks (fst (set_path_redacted sub rest v)),
             snd (set_path_redacted sub rest v))" by simp
        with PDict \<open>map_of kvs k = Some child\<close> pk ne Some show ?thesis
          by (simp add: Let_def)
      qed
    qed
  qed (use pk in simp_all)
qed

lemma redact_field_single_rule:
  "field_redaction_rules (RedactionEngine.policy self) = [rule] \<Longrightarrow>
     redact_field self data (field_path rule) uc ucs =
       (if should_redact rule uc ucs
        then fst (set_path_redacted data (split_on (CHR ''.'') (field_path rule))
                    (PStr (apply_redaction rule PNone)))
        else data)"
  by (simp add: redact_field_def Let_def)

text \<open>
  C8. Take a path with plain segments, then a segment \<^verbatim>\<open>key[*]\<close>, then a rest. When the
  plain segments lead to a dictionary holding a list under \<^verbatim>\<open>key\<close>, the payload after the
  call is the payload with that list replaced, at that place, by the list of the results of
  resolving the rest on each item alone, and the call reports a change exactly when one of
  the items did. When the plain segments do not lead to a dictionary, or it has no
  \<^verbatim>\<open>key\<close>, or holds something other than a list there, the payload is returned as it is
  and no change is reported. A path of plain segments only replaces the value under its last
  key when the keys before it lead to a dictionary that has it, and does nothing otherwise;
  the empty path does nothing. A call that reports no change returns the payload as it was,
  and a firing rule hands its dotted path and its replacement to this resolution, a rule
  that does not fire leaves the payload alone. No case raises. (Payloads are trees: no
  object is held in two places.)
\<close>

theorem wildcard_segment_resolution:
  assumes "endswith head ''[*]''" and "\<forall>seg\<in>set pre. \<not> endswith seg ''[*]''"
  shows "(\<forall>kvs items.
            get_path current pre = Some (PDict kvs)
            \<and> map_of kvs (take (length head - 3) head) = Some (PList items)
            \<longrightarrow> set_path_redacted current (pre @ head # tail) v =
                  (put_path current pre
                     (PDict (dict_set (take (length head - 3) head)
                        (PList (map (\<lambda>item. fst (set_path_redacted item tail v)) items)) kvs)),
                   \<exists>item\<in>set items. snd (set_path_redacted item tail v)))
       \<and> ((\<forall>kvs items. get_path current pre = Some (PDict kvs)
              \<longrightarrow> map_of kvs (take (length head - 3) head) \<noteq> Some (PList items))
            \<longrightarrow> set_path_redacted current (pre @ head # tail) v = (current, False))
       \<and> (\<forall>leaf. \<not> endswith leaf ''[*]'' \<longrightarrow>
              set_path_redacted current (pre @ [leaf]) v =
                (case get_path current pre of
                   Some (PDict kvs) \<Rightarrow>
                     (case map_of kvs leaf of
                        None \<Rightarrow> (current, False)
                      | Some old \<Rightarrow> (put_path current pre (PDict (dict_set leaf v kvs)), True))
                 | _ \<Rightarrow> (current, False)))
       \<and> set_path_redacted current [] v = (current, False)
       \<and> (\<forall>cur seg rest.
              \<not> endswith seg ''[*]'' \<and> (\<forall>kvs. cur = PDict kvs \<longrightarrow> map_of kvs seg = None)
              \<longrightarrow> set_path_redacted cur (seg # rest) v = (cur, False))
       \<and> (\<forall>cur parts.
              \<not> snd (set_path_redacted cur parts v) \<longrightarrow> fst (set_path_redacted cur parts v) = cur)
       \<and> (\<forall>self rule data uc ucs.
              field_redaction_rules (RedactionEngine.policy self) = [rule] \<longrightarrow>
              redact_field self data (field_path rule) uc ucs =
                (if should_redact rule uc ucs
                 then fst (set_path_redacted data (split_on (CHR ''.'') (field_path rule))
                             (PStr (apply_redaction rule PNone)))
                 else data))"
proof (intro conjI allI impI)
  fix kvs items
  assume a: "get_path current pre = Some (PDict kvs)
            \<and> map_of kvs (take (length head - 3) head) = Some (PList items)"
  have "set_path_redacted (PDict kvs) (head # tail) v =
          (PDict (dict_set (take (length head - 3) head)
                    (PList (map (\<lambda>item. fst (set_path_redacted item tail v)) items)) kvs),
           \<exists>item\<in>set items. snd (set_path_redacted item tail v))"
    using a assms(1) by (simp add: list_ex_iff comp_def)
  with a plain_prefix_descends[OF assms(2), of "head # tail" current v]
  show "set_path_redacted current (pre @ head # tail) v =
                  (put_path current pre
                     (PDict (dict_set (take (length head - 3) head)
                        (PList (map (\<lambda>item. fst (set_path_redacted item tail v)) items)) kvs)),
                   \<exists>item\<in>set items. snd (set_path_redacted item tail v))"
    by simp
next
  assume n: "\<forall>kvs items. get_path current pre = Some (PDict kvs)
              \<longrightarrow> map_of kvs (take (length head - 3) head) \<noteq> Some (PList items)"
  note d = plain_prefix_descends[OF assms(2), of "head # tail" current v]
  show "set_path_redacted current (pre @ head # tail) v = (current, False)"
  proof (cases "get_path current pre")
    case None
    with d show ?thesis by simp
  next
    case (Some sub)
    have "set_path_redacted sub (head # tail) v = (sub, False)"
    proof (cases sub)
      case (PDict kvs)
      with n Some have "\<forall>items. map_of kvs (take (length head - 3) head) \<noteq> Some (PList items)"
        by simp
      with assms(1) PDict show ?thesis
        by (auto simp: Let_def split: option.splits pyval.splits)
    qed (use assms(1) in simp_all)
    with d Some show ?thesis by (simp add: put_path_same)
  qed
next
  fix leaf
  assume pl: "\<not> endswith leaf ''[*]''"
  note d = plain_prefix_descends[OF assms(2), of "[leaf]" current v]
  show "set_path_redacted current (pre @ [leaf]) v =
                (case get_path current pre of
                   Some (PDict kvs) \<Rightarrow>
                     (case map_of kvs leaf of
                        None \<Rightarrow> (current, False)
                      | Some old \<Rightarrow> (put_path current pre (PDict (dict_set leaf v kvs)), True))
                 | _ \<Rightarrow> (current, False))"
  proof (cases "get_path current pre")
    case None
    with d show ?thesis by simp
  next
    case (Some sub)
    show ?thesis
    proof (cases sub)
      case (PDict kvs)
      show ?thesis
      proof (cases "map_of kvs leaf")
        case None
        with d Some PDict pl show ?thesis by (simp add: put_path_same)
      next
        case (Some old)
        with d \<open>get_path current pre = Some sub\<close> PDict pl show ?thesis by simp
      qed
    qed (use d Some pl in \<open>simp_all add: put_path_same\<close>)
  qed
next
  show "set_path_redacted current [] v = (current, False)" by simp
next
  fix cur seg rest
  assume a: "\<not> endswith seg ''[*]'' \<and> (\<forall>kvs. cur = PDict kvs \<longrightarrow> map_of kvs seg = None)"
  then show "set_path_redacted cur (seg # rest) v = (cur, False)"
    by (cases cur) simp_all
next
  fix cur parts
  assume "\<not> snd (set_path_redacted cur parts v)"
  then show "fst (set_path_redacted cur parts v) = cur"
    by (rule set_path_redacted_unchanged)
next
  fix self :: RedactionEngine and rule data uc ucs
  assume "field_redaction_rules (RedactionEngine.policy self) = [rule]"
  then show "redact_field self data (field_path rule) uc ucs =
                (if should_redact rule uc ucs
                 then fst (set_path_redacted data (split_on (CHR ''.'') (field_path rule))
                             (PStr (apply_redaction rule PNone)))
                 else data)"
    by (rule redact_field_single_rule)
qed

theorem wildcard_segment_resolution_witness:
  "endswith ''affected_users[*]'' ''[*]''
   \<and> \<not> endswith ''incident'' ''[*]''
   \<and> split_on (CHR ''.'') ''incident.affected_users[*].email''
       = [''incident''] @ ''affected_users[*]'' # [''email'']
   \<and> set_path_redacted
        (PDict [(''id'', PStr ''42''),
                (''incident'', PDict [(''affected_users'',
                   PList [PDict [(''name'', PStr ''Alice''), (''email'', PStr ''alice@agency.gov'')],
                          PInt 3,
                          PDict [(''email'', PStr ''bob@agency.gov''), (''name'', PStr ''Bob'')]]),
                   (''title'', PStr ''Phishing'')])])
        ([''incident''] @ ''affected_users[*]'' # [''email'']) (PStr ''[REDACTED]'')
      = (PDict [(''id'', PStr ''42''),
                (''incident'', PDict [(''affected_users'',
                   PList [PDict [(''name'', PStr ''Alice''), (''email'', PStr ''[REDACTED]'')],
                          PInt 3,
                          PDict [(''email'', PStr ''[REDACTED]''), (''name'', PStr ''Bob'')]]),
                   (''title'', PStr ''Phishing'')])], True)
   \<and> set_path_redacted
        (PDict [(''incident'', PDict [(''affected_users'', PStr ''nobody'')])])
        ([''incident''] @ ''affected_users[*]'' # [''email'']) (PStr ''[REDACTED]'')
      = (PDict [(''incident'', PDict [(''affected_users'', PStr ''nobody'')])], False)
   \<and> redact_field
        \<lparr> RedactionEngine.policy =
            (ClassificationPolicy_init ''Demo Policy'')\<lparr> field_redaction_rules := [wildcard_rule] \<rparr> \<rparr>
        (PDict [(''id'', PStr ''42''),
                (''incident'', PDict [(''affected_users'',
                   PList [PDict [(''name'', PStr ''Alice''), (''email'', PStr ''alice@agency.gov'')],
                          PInt 3,
                          PDict [(''email'', PStr ''bob@agency.gov''), (''name'', PStr ''Bob'')]]),
                   (''title'', PStr ''Phishing'')])])
        ''incident.affected_users[*].email'' SECRET [NOFORN]
      = PDict [(''id'', PStr ''42''),
                (''incident'', PDict [(''affected_users'',
                   PList [PDict [(''name'', PStr ''Alice''), (''email'', PStr ''[REDACTED]'')],
                          PInt 3,
                          PDict [(''email'', PStr ''[REDACTED]''), (''name'', PStr ''Bob'')]]),
                   (''title'', PStr ''Phishing'')])]"
proof -
  let ?payload = "PDict [(''id'', PStr ''42''),
                (''incident'', PDict [(''affected_users'',
                   PList [PDict [(''name'', PStr ''Alice''), (''email'', PStr ''alice@agency.gov'')],
                          PInt 3,
                          PDict [(''email'', PStr ''bob@agency.gov''), (''name'', PStr ''Bob'')]]),
                   (''title'', PStr ''Phishing'')])]"
  let ?expected = "PDict [(''id'', PStr ''42''),
                (''incident'', PDict [(''affected_users'',
                   PList [PDict [(''name'', PStr ''Alice''), (''email'', PStr ''[REDACTED]'')],
                          PInt 3,
                          PDict [(''email'', PStr ''[REDACTED]''), (''name'', PStr ''Bob'')]]),
                   (''title'', PStr ''Phishing'')])]"
  let ?bad = "PDict [(''incident'', PDict [(''affected_users'', PStr ''nobody'')])]"
  let ?v = "PStr ''[REDACTED]''"
  let ?self = "\<lparr> RedactionEngine.policy =
            (ClassificationPolicy_init ''Demo Policy'')\<lparr> field_redaction_rules := [wildcard_rule] \<rparr> \<rparr>"
  have e: "endswith ''affected_users[*]'' ''[*]''" by (simp add: endswith_def)
  have p: "\<forall>seg\<in>set [''incident'']. \<not> endswith seg ''[*]''" by (simp add: endswith_def)
  have ne: "\<not> endswith ''email'' ''[*]''" by (simp add: endswith_def)
  have sp: "split_on (CHR ''.'') ''incident.affected_users[*].email''
       = [''incident''] @ ''affected_users[*]'' # [''email'']" by simp
  note t1 = wildcard_segment_resolution[OF e p, of ?payload "[''email'']" ?v]
  note t2 = wildcard_segment_resolution[OF e p, of ?bad "[''email'']" ?v]
  from t1 have a: "set_path_redacted ?payload ([''incident''] @ ''affected_users[*]'' # [''email'']) ?v
                     = (?expected, True)"
    using ne by simp
  from t2 have b: "set_path_redacted ?bad ([''incident''] @ ''affected_users[*]'' # [''email'']) ?v
                     = (?bad, False)"
    by simp
  have fp: "field_path wildcard_rule = ''incident.affected_users[*].email''"
    by (simp add: wildcard_rule_def)
  have fr: "field_redaction_rules (RedactionEngine.policy ?self) = [wildcard_rule]" by simp
  have sr: "should_redact wildcard_rule SECRET [NOFORN]"
    by (simp add: should_redact_def wildcard_rule_def)
  have ar: "apply_redaction wildcard_rule PNone = ''[REDACTED]''"
    by (simp add: apply_redaction_def wildcard_rule_def)
  from t1 have "redact_field ?self ?payload (field_path wildcard_rule) SECRET [NOFORN] =
                (if should_redact wildcard_rule SECRET [NOFORN]
                 then fst (set_path_redacted ?payload (split_on (CHR ''.'') (field_path wildcard_rule))
                             (PStr (apply_redaction wildcard_rule PNone)))
                 else ?payload)"
    using fr by blast
  then have c: "redact_field ?self ?payload ''incident.affected_users[*].email'' SECRET [NOFORN]
                  = ?expected"
    unfolding fp sp using sr ar a by simp
  have p': "\<not> endswith ''incident'' ''[*]''" by (simp add: endswith_def)
  from e p' sp a b c show ?thesis by blast
qed

section \<open>The redaction engine on the test suite's payloads\<close>

text \<open>\<^verbatim>\<open>test_field_redaction_list_wildcard\<close> and
  \<^verbatim>\<open>test_field_not_redacted_when_compartment_sufficient\<close>.\<close>

lemma split_wild: "split_on (CHR ''.'') ''incident.affected_users[*].email'' = [''incident'', ''affected_users[*]'', ''email'']"
  by simp

lemma test_wildcard:
  "engine_apply_redaction (AccessControlEngine_init policy_with_redaction None)
      affected_users_payload SECRET [NOFORN]
   = PDict [(''incident'',
       PDict [(''affected_users'',
         PList [PDict [(''name'', PStr ''Alice''), (''email'', PStr ''[REDACTED]'')],
                PDict [(''name'', PStr ''Bob''), (''email'', PStr ''[REDACTED]'')]])])]"
  by (simp add: engine_apply_redaction_def AccessControlEngine_init_def compute_obligations_def
        apply_obligations_def redact_field_def policy_with_redaction_def ClassificationPolicy_init_def
        email_rule_def wildcard_rule_def classified_section_rule_def should_redact_def
        portion_should_redact_def apply_redaction_def affected_users_payload_def endswith_def)

lemma test_wildcard_humint:
  "engine_apply_redaction (AccessControlEngine_init policy_with_redaction None)
      affected_users_payload SECRET [NOFORN, HUMINT] = affected_users_payload"
  by (simp add: engine_apply_redaction_def AccessControlEngine_init_def compute_obligations_def
        apply_obligations_def redact_field_def policy_with_redaction_def ClassificationPolicy_init_def
        email_rule_def wildcard_rule_def classified_section_rule_def should_redact_def
        portion_should_redact_def apply_redaction_def affected_users_payload_def endswith_def)

text \<open>\<^verbatim>\<open>apply_redaction\<close> of a rule truncates a string longer than six characters, and
  called on \<^verbatim>\<open>None\<close> it yields one of the three masks.\<close>

lemma apply_redaction_truncate:
  "FieldRedactionRule.strategy rule = TRUNCATE \<Longrightarrow>
     apply_redaction rule v =
       (case v of PStr s \<Rightarrow> if length s > 6 then take 3 s @ ''...'' @ drop (length s - 3) s
                             else ''[REDACTED]''
        | _ \<Rightarrow> ''[REDACTED]'')"
  by (simp add: apply_redaction_def)

lemma apply_redaction_None:
  "apply_redaction rule PNone \<in> {''[REDACTED]'', ''****'', ''#####''}"
  by (simp add: apply_redaction_def)

text \<open>
  C9 fails on the engine: \<^verbatim>\<open>redact_field\<close> computes the replacement with
  \<^verbatim>\<open>rule.apply_redaction(None)\<close>, so a firing TRUNCATE rule replaces the sixteen-character
  leaf by "[REDACTED]", where the rule's own \<^verbatim>\<open>apply_redaction\<close> on that leaf gives
  "ali...gov".
\<close>

theorem engine_truncate_ignores_leaf:
  "should_redact (email_rule\<lparr> FieldRedactionRule.strategy := TRUNCATE \<rparr>) CUI []
   \<and> engine_apply_redaction
        (AccessControlEngine_init
           ((ClassificationPolicy_init ''Redaction Policy'')
              \<lparr> field_redaction_rules :=
                  [email_rule\<lparr> FieldRedactionRule.strategy := TRUNCATE \<rparr>] \<rparr>) None)
        (PDict [(''user'', PDict [(''name'', PStr ''Alice Smith''),
                                  (''email'', PStr ''alice@agency.gov'')])])
        CUI []
      = PDict [(''user'', PDict [(''name'', PStr ''Alice Smith''),
                                 (''email'', PStr ''[REDACTED]'')])]
   \<and> apply_redaction (email_rule\<lparr> FieldRedactionRule.strategy := TRUNCATE \<rparr>)
        (PStr ''alice@agency.gov'') = ''ali...gov''"
  by (simp add: engine_apply_redaction_def AccessControlEngine_init_def compute_obligations_def
        apply_obligations_def redact_field_def ClassificationPolicy_init_def
        email_rule_def should_redact_def apply_redaction_def endswith_def)

section \<open>Classification aggregation\<close>

text \<open>The conversions and the loop raise nothing but \<^verbatim>\<open>ValueError\<close>; the loop returns
  exactly when every raw code converts, and then it has collected the classifications in
  input order and the two unions without repetition.\<close>

lemma to_level_error: "to_level c = Inl e \<Longrightarrow> e = ValueError"
  by (cases c) (auto split: option.splits)

lemma to_compartment_error: "to_compartment c = Inl e \<Longrightarrow> e = ValueError"
  by (cases c) (auto split: option.splits)

lemma add_compartments_Inr:
  "add_compartments cs acc = Inr acc' \<Longrightarrow>
     set acc' = set acc \<union> set (concat (map (\<lambda>x. case to_compartment x of Inl err \<Rightarrow> [] | Inr c \<Rightarrow> [c]) cs))
     \<and> (distinct acc \<longrightarrow> distinct acc')
     \<and> list_all (\<lambda>x. to_compartment x \<noteq> Inl ValueError) cs"
proof (induction cs arbitrary: acc)
  case Nil
  then show ?case by simp
next
  case (Cons x cs)
  then obtain c where c: "to_compartment x = Inr c"
    by (auto split: sum.splits)
  with Cons.prems have "add_compartments cs (List.insert c acc) = Inr acc'" by simp
  from Cons.IH[OF this] c show ?case by auto
qed

lemma add_compartments_valid:
  "list_all (\<lambda>x. to_compartment x \<noteq> Inl ValueError) cs \<Longrightarrow> \<exists>acc'. add_compartments cs acc = Inr acc'"
proof (induction cs arbitrary: acc)
  case Nil
  then show ?case by simp
next
  case (Cons x cs)
  then obtain c where c: "to_compartment x = Inr c"
    by (cases "to_compartment x") (auto dest: to_compartment_error)
  with Cons show ?case by simp
qed

lemma add_compartments_error: "add_compartments cs acc = Inl e \<Longrightarrow> e = ValueError"
  by (induction cs arbitrary: acc) (auto split: sum.splits dest: to_compartment_error)

lemma set_fold_insert: "set (fold List.insert ms acc) = set ms \<union> set acc"
  by (induction ms arbitrary: acc) auto

lemma distinct_fold_insert: "distinct acc \<Longrightarrow> distinct (fold List.insert ms acc)"
  by (induction ms arbitrary: acc) auto

lemma collect_Inr:
  "collect es (cls, pms, cms) = Inr (cls', pms', cms') \<Longrightarrow>
     cls' = cls @ concat (map entity_levels es)
     \<and> set pms' = set pms \<union> (\<Union>e\<in>set es. set (entity_markings e))
     \<and> set cms' = set cms \<union> (\<Union>e\<in>set es. set (entity_compartments e))
     \<and> (distinct pms \<longrightarrow> distinct pms') \<and> (distinct cms \<longrightarrow> distinct cms')
     \<and> (\<forall>e\<in>set es. entity_valid e)"
proof (induction es arbitrary: cls pms cms)
  case Nil
  then show ?case by simp
next
  case (Cons e es)
  let ?cls1 = "cls @ entity_levels e"
  let ?pms1 = "(case ent_portion_markings e of None \<Rightarrow> pms
                | Some ms \<Rightarrow> if ms \<noteq> [] then fold List.insert ms pms else pms)"
  have c1: "(case ent_classification e of None \<Rightarrow> True | Some c \<Rightarrow> to_level c \<noteq> Inl ValueError)"
    using Cons.prems by (auto split: option.splits sum.splits)
  have c1': "(case ent_classification e of
              None \<Rightarrow> Inr cls
            | Some c \<Rightarrow> (case to_level c of Inl e \<Rightarrow> Inl e | Inr l \<Rightarrow> Inr (cls @ [l]))) = Inr ?cls1"
    using Cons.prems by (auto simp: entity_levels_def split: option.splits sum.splits)
  obtain cms1 where c2: "(case ent_compartments e of None \<Rightarrow> Inr cms
                    | Some comps \<Rightarrow> if comps \<noteq> [] then add_compartments comps cms else Inr cms) = Inr cms1"
    and rest: "collect es (?cls1, ?pms1, cms1) = Inr (cls', pms', cms')"
    using Cons.prems c1' by (auto simp: Let_def split: sum.splits)
  have p: "set ?pms1 = set pms \<union> set (entity_markings e)" "distinct pms \<longrightarrow> distinct ?pms1"
    by (auto simp: entity_markings_def set_fold_insert distinct_fold_insert split: option.splits)
  have m: "set cms1 = set cms \<union> set (entity_compartments e) \<and> (distinct cms \<longrightarrow> distinct cms1)
           \<and> (case ent_compartments e of None \<Rightarrow> True
               | Some cs \<Rightarrow> list_all (\<lambda>x. to_compartment x \<noteq> Inl ValueError) cs)"
  proof (cases "ent_compartments e")
    case None
    with c2 show ?thesis by (simp add: entity_compartments_def)
  next
    case (Some comps)
    show ?thesis
    proof (cases "comps = []")
      case True
      with Some c2 show ?thesis by (simp add: entity_compartments_def)
    next
      case False
      with Some c2 have "add_compartments comps cms = Inr cms1" by simp
      from add_compartments_Inr[OF this] Some show ?thesis
        by (simp add: entity_compartments_def)
    qed
  qed
  have v: "entity_valid e" using c1 m by (simp add: entity_valid_def)
  from Cons.IH[OF rest] p m v show ?case by auto
qed

lemma collect_valid:
  "\<forall>e\<in>set es. entity_valid e \<Longrightarrow> \<exists>st'. collect es (cls, pms, cms) = Inr st'"
proof (induction es arbitrary: cls pms cms)
  case Nil
  then show ?case by simp
next
  case (Cons e es)
  then have v: "entity_valid e" and vs: "\<forall>e\<in>set es. entity_valid e" by simp_all
  have "\<exists>cls1. (case ent_classification e of
              None \<Rightarrow> Inr cls
            | Some c \<Rightarrow> (case to_level c of Inl e \<Rightarrow> Inl e | Inr l \<Rightarrow> Inr (cls @ [l]))) = Inr cls1"
    using v by (auto simp: entity_valid_def split: option.splits sum.splits dest: to_level_error)
  then obtain cls1 where c1: "(case ent_classification e of
              None \<Rightarrow> Inr cls
            | Some c \<Rightarrow> (case to_level c of Inl e \<Rightarrow> Inl e | Inr l \<Rightarrow> Inr (cls @ [l]))) = Inr cls1" ..
  have "\<exists>cms1. (case ent_compartments e of None \<Rightarrow> Inr cms
                    | Some comps \<Rightarrow> if comps \<noteq> [] then add_compartments comps cms else Inr cms) = Inr cms1"
    using v add_compartments_valid by (auto simp: entity_valid_def split: option.splits)
  then obtain cms1 where c2: "(case ent_compartments e of None \<Rightarrow> Inr cms
                    | Some comps \<Rightarrow> if comps \<noteq> [] then add_compartments comps cms else Inr cms) = Inr cms1" ..
  from Cons.IH[OF vs] c1 c2 show ?case by (simp add: Let_def)
qed

lemma collect_error: "collect es st = Inl e \<Longrightarrow> e = ValueError"
proof (induction es st rule: collect.induct)
  case (1 st)
  then show ?case by simp
next
  case (2 entity entities classifications portion_markings_set compartments_set)
  then show ?case
    by (auto simp: Let_def split: sum.splits option.splits if_splits
             dest: to_level_error add_compartments_error)
qed

text \<open>\<^verbatim>\<open>max\<close> with an injective key and the two sorts depend on the members only.\<close>

lemma fold_max_step:
  "fold (\<lambda>y best. if f y > f best then y else best) xs (x::'a) \<in> set (x # xs)
   \<and> (\<forall>y\<in>set (x # xs). (f y :: int) \<le> f (fold (\<lambda>y best. if f y > f best then y else best) xs x))"
proof (induction xs arbitrary: x)
  case Nil
  then show ?case by simp
next
  case (Cons a xs)
  let ?b = "if f a > f x then a else x"
  from Cons.IH[of ?b] show ?case by (auto split: if_splits)
qed

lemma max_by_key_in_set:
  "xs \<noteq> [] \<Longrightarrow> max_by_key f d xs \<in> set xs \<and> (\<forall>y\<in>set xs. f y \<le> f (max_by_key f d xs))"
  using fold_max_step[of f] by (cases xs) auto

lemma max_by_key_set_cong:
  assumes "inj f" and "set xs = set ys"
  shows "max_by_key f d xs = max_by_key f d ys"
proof (cases "xs = []")
  case True
  with assms(2) show ?thesis by simp
next
  case False
  with assms(2) have ny: "ys \<noteq> []" by auto
  note a = max_by_key_in_set[OF False, of f d]
  note b = max_by_key_in_set[OF ny, of f d]
  from a b assms(2) have "f (max_by_key f d xs) = f (max_by_key f d ys)"
    by (metis order_antisym)
  with assms(1) show ?thesis by (simp add: inj_eq)
qed

lemma sort_set_cong:
  fixes xs ys :: "'a::linorder list"
  assumes "distinct xs" "distinct ys" "set xs = set ys"
  shows "sort xs = sort ys"
  using assms by (intro sorted_distinct_set_unique) simp_all

lemma sort_key_set_cong:
  fixes f :: "'a \<Rightarrow> 'b::linorder"
  assumes "inj f" "distinct xs" "distinct ys" "set xs = set ys"
  shows "sort_key f xs = sort_key f ys"
proof -
  have i: "\<And>zs. inj_on f (set zs)" using assms(1) by (rule inj_on_subset) simp
  have "map f (sort_key f xs) = map f (sort_key f ys)"
    using assms i by (intro sorted_distinct_set_unique) (simp_all add: distinct_map)
  then show ?thesis using assms(1) by (simp add: inj_map_eq_map)
qed

lemma aggregate_Inr:
  assumes "aggregate h now es key = Inr r"
  shows "\<exists>cls pms cms. collect es ([], [], []) = Inr (cls, pms, cms)
           \<and> ClassificationAggregationResult.highest_classification r
               = max_by_key numeric_value UNCLASSIFIED cls
           \<and> all_classifications r = cls
           \<and> all_portion_markings r = sort pms
           \<and> all_compartments r = sort_key compartment_value cms
           \<and> computed_at r = now
           \<and> computed_from_entity_count r = int (length es)
           \<and> signature_algorithm r = ''hmac-sha256''
           \<and> signature r = (case key of None \<Rightarrow> None
                 | Some k \<Rightarrow> if k = [] then None
                             else Some (h k (json_dumps (signing_payload r))))"
  using assms
  by (auto simp: aggregate_def compute_signature_def signing_payload_def Let_def
           split: sum.splits option.splits prod.splits)

lemma aggregate_returns:
  "\<forall>e\<in>set es. entity_valid e \<Longrightarrow> \<exists>r. aggregate h now es key = Inr r"
  using collect_valid[of es "[]" "[]" "[]"]
  by (auto simp: aggregate_def Let_def split: sum.splits prod.splits)

lemma aggregate_error: "aggregate h now es key = Inl e \<Longrightarrow> e = ValueError"
  by (auto simp: aggregate_def Let_def split: sum.splits prod.splits dest: collect_error)

text \<open>The signed message, written out: keys in ascending order, no whitespace.\<close>

lemma signing_payload_canonical:
  "json_dumps (signing_payload r) =
     ''{'' @ json_string ''all_compartments'' @ '':[''
       @ join '','' (map json_string (sort (map compartment_value (all_compartments r))))
       @ ''],'' @ json_string ''all_portion_markings'' @ '':[''
       @ join '','' (map json_string (sort (all_portion_markings r)))
       @ ''],'' @ json_string ''count'' @ '':'' @ str_of_int (computed_from_entity_count r)
       @ '','' @ json_string ''highest_classification'' @ '':''
       @ json_string (level_value (ClassificationAggregationResult.highest_classification r))
       @ ''}''"
  by (simp add: signing_payload_def comp_def)

text \<open>The banner of the test entities (highest TS, markings and compartments sorted).\<close>

lemma banner_aggregate:
  "aggregate h now banner_entities None =
     Inr \<lparr> ClassificationAggregationResult.highest_classification = TOP_SECRET,
           all_classifications = [SECRET, TOP_SECRET, SECRET],
           all_portion_markings = [''//HUMINT'', ''//NOCONTRACT'', ''//NOFORN''],
           all_compartments = [HUMINT, NOFORN],
           computed_at = now, computed_from_entity_count = 3,
           signature = None, signature_algorithm = ''hmac-sha256'' \<rparr>"
  by (simp add: aggregate_def banner_entities_def level_of_code_def compartment_of_code_def)

text \<open>
  C4. For two entity lists that are permutations of each other, any key and any two clock
  readings: when \<^verbatim>\<open>aggregate\<close> returns on the first list it returns on the second and the
  two signatures are identical. The signature is absent without a key (or with the empty
  key), and otherwise it is the digest, under the key, of the canonical JSON of exactly the
  highest classification code, the ascending portion markings, the ascending compartment
  codes and the number of entities; \<^verbatim>\<open>computed_at\<close> is not part of it. The digest function
  is the library's HMAC-SHA256 hex digest, a parameter here.
\<close>

theorem aggregate_signature_permutation_invariant:
  assumes "mset entities = mset entities'"
    and "aggregate hmac_sha256_hex now entities key = Inr r"
  shows "\<exists>r'. aggregate hmac_sha256_hex now' entities' key = Inr r'
           \<and> signature r' = signature r
           \<and> signature r =
               (case key of
                  None \<Rightarrow> None
                | Some k \<Rightarrow>
                    if k = [] then None
                    else Some (hmac_sha256_hex k (json_dumps (PDict
                      [(''highest_classification'',
                          PStr (level_value
                            (ClassificationAggregationResult.highest_classification r))),
                       (''all_portion_markings'', PList (map PStr (all_portion_markings r))),
                       (''all_compartments'',
                          PList (map PStr (map compartment_value (all_compartments r)))),
                       (''count'', PInt (int (length entities)))]))))
           \<and> sorted (all_portion_markings r) \<and> distinct (all_portion_markings r)
           \<and> sorted (map compartment_value (all_compartments r))
           \<and> distinct (map compartment_value (all_compartments r))"
proof -
  from aggregate_Inr[OF assms(2)] obtain cls pms cms where
    c: "collect entities ([], [], []) = Inr (cls, pms, cms)"
    and h: "ClassificationAggregationResult.highest_classification r
               = max_by_key numeric_value UNCLASSIFIED cls"
    and pm: "all_portion_markings r = sort pms"
    and cm: "all_compartments r = sort_key compartment_value cms"
    and n: "computed_from_entity_count r = int (length entities)"
    and s: "signature r = (case key of None \<Rightarrow> None
                 | Some k \<Rightarrow> if k = [] then None
                             else Some (hmac_sha256_hex k (json_dumps (signing_payload r))))"
    by blast
  note C = collect_Inr[OF c]
  have seteq: "set entities = set entities'" using assms(1) by (rule mset_eq_setD)
  have leneq: "length entities = length entities'" using assms(1) by (rule mset_eq_length)
  from C seteq have "\<forall>e\<in>set entities'. entity_valid e" by simp
  from aggregate_returns[OF this] obtain r' where
    r': "aggregate hmac_sha256_hex now' entities' key = Inr r'" by blast
  from aggregate_Inr[OF r'] obtain cls' pms' cms' where
    c': "collect entities' ([], [], []) = Inr (cls', pms', cms')"
    and h': "ClassificationAggregationResult.highest_classification r'
               = max_by_key numeric_value UNCLASSIFIED cls'"
    and pm': "all_portion_markings r' = sort pms'"
    and cm': "all_compartments r' = sort_key compartment_value cms'"
    and n': "computed_from_entity_count r' = int (length entities')"
    and s': "signature r' = (case key of None \<Rightarrow> None
                 | Some k \<Rightarrow> if k = [] then None
                             else Some (hmac_sha256_hex k (json_dumps (signing_payload r'))))"
    by blast
  note C' = collect_Inr[OF c']
  have sc: "set cls = set cls'" using C C' seteq by simp
  have e1: "ClassificationAggregationResult.highest_classification r
                  = ClassificationAggregationResult.highest_classification r'"
    using h h' max_by_key_set_cong[OF numeric_value_inj sc] by simp
  have dp: "distinct pms" "distinct pms'" "set pms = set pms'" using C C' seteq by simp_all
  have e2: "all_portion_markings r = all_portion_markings r'"
    using pm pm' sort_set_cong[OF dp] by simp
  have dc: "distinct cms" "distinct cms'" "set cms = set cms'" using C C' seteq by simp_all
  have e3: "all_compartments r = all_compartments r'"
    using cm cm' sort_key_set_cong[OF compartment_value_inj dc] by simp
  have e4: "computed_from_entity_count r = computed_from_entity_count r'"
    using n n' leneq by simp
  have pay: "signing_payload r' = signing_payload r"
    using e1 e2 e3 e4 by (simp add: signing_payload_def)
  have sig: "signature r' = signature r" unfolding s s' pay by (rule refl)
  have so1: "sorted (all_portion_markings r)" "distinct (all_portion_markings r)"
    using pm dp by simp_all
  have so2: "sorted (map compartment_value (all_compartments r))" using cm by simp
  have "inj_on compartment_value (set (all_compartments r))"
    using compartment_value_inj by (rule inj_on_subset) simp
  then have so3: "distinct (map compartment_value (all_compartments r))"
    using cm dc by (simp add: distinct_map)
  have payload: "signing_payload r = PDict
                      [(''highest_classification'',
                          PStr (level_value
                            (ClassificationAggregationResult.highest_classification r))),
                       (''all_portion_markings'', PList (map PStr (all_portion_markings r))),
                       (''all_compartments'',
                          PList (map PStr (map compartment_value (all_compartments r)))),
                       (''count'', PInt (int (length entities)))]"
    using so1 so2 n by (simp add: signing_payload_def sort_key_id_if_sorted)
  have form: "signature r =
               (case key of
                  None \<Rightarrow> None
                | Some k \<Rightarrow>
                    if k = [] then None
                    else Some (hmac_sha256_hex k (json_dumps (PDict
                      [(''highest_classification'',
                          PStr (level_value
                            (ClassificationAggregationResult.highest_classification r))),
                       (''all_portion_markings'', PList (map PStr (all_portion_markings r))),
                       (''all_compartments'',
                          PList (map PStr (map compartment_value (all_compartments r)))),
                       (''count'', PInt (int (length entities)))]))))"
    unfolding payload[symmetric] by (rule s)
  from r' sig form so1 so2 so3 show ?thesis by blast
qed

theorem aggregate_signature_permutation_invariant_witness:
  "mset banner_entities = mset (rev banner_entities)
   \<and> (\<exists>r r'. aggregate (\<lambda>key msg. key @ '':'' @ msg) 0 banner_entities
                 (Some ''test-signing-key-12345'') = Inr r
        \<and> aggregate (\<lambda>key msg. key @ '':'' @ msg) 86400 (rev banner_entities)
                 (Some ''test-signing-key-12345'') = Inr r'
        \<and> ClassificationAggregationResult.highest_classification r = TOP_SECRET
        \<and> all_portion_markings r = [''//HUMINT'', ''//NOCONTRACT'', ''//NOFORN'']
        \<and> all_compartments r = [HUMINT, NOFORN]
        \<and> signature r' = signature r
        \<and> signature r = Some (''test-signing-key-12345'' @ '':'' @ json_dumps (PDict
              [(''highest_classification'', PStr ''TS''),
               (''all_portion_markings'',
                  PList [PStr ''//HUMINT'', PStr ''//NOCONTRACT'', PStr ''//NOFORN'']),
               (''all_compartments'', PList [PStr ''HUMINT'', PStr ''NOFORN'']),
               (''count'', PInt 3)])))"
proof -
  let ?h = "\<lambda>key msg. key @ '':'' @ (msg :: string)"
  let ?k = "Some ''test-signing-key-12345''"
  let ?r0 = "\<lparr> ClassificationAggregationResult.highest_classification = TOP_SECRET,
           all_classifications = [SECRET, TOP_SECRET, SECRET],
           all_portion_markings = [''//HUMINT'', ''//NOCONTRACT'', ''//NOFORN''],
           all_compartments = [HUMINT, NOFORN],
           computed_at = 0, computed_from_entity_count = 3,
           signature = None, signature_algorithm = ''hmac-sha256'' \<rparr>"
  let ?r = "?r0\<lparr> signature := Some (compute_signature ?h ?r0 ''test-signing-key-12345'') \<rparr>"
  have p: "mset banner_entities = mset (rev banner_entities)" by simp
  have ev: "aggregate ?h 0 banner_entities ?k = Inr ?r"
    by (simp add: aggregate_def banner_entities_def level_of_code_def compartment_of_code_def)
  from aggregate_signature_permutation_invariant[OF p ev, of 86400]
  obtain r' where r': "aggregate ?h 86400 (rev banner_entities) ?k = Inr r'"
    and sig: "signature r' = signature ?r"
    and form: "signature ?r = Some (''test-signing-key-12345'' @ '':'' @ json_dumps (PDict
              [(''highest_classification'', PStr ''TS''),
               (''all_portion_markings'',
                  PList [PStr ''//HUMINT'', PStr ''//NOCONTRACT'', PStr ''//NOFORN'']),
               (''all_compartments'', PList [PStr ''HUMINT'', PStr ''NOFORN'']),
               (''count'', PInt 3)]))"
    by (auto simp: banner_entities_def)
  have f: "ClassificationAggregationResult.highest_classification ?r = TOP_SECRET"
      "all_portion_markings ?r = [''//HUMINT'', ''//NOCONTRACT'', ''//NOFORN'']"
      "all_compartments ?r = [HUMINT, NOFORN]"
    by simp_all
  from p ev r' sig form f show ?thesis by blast
qed

end
